theory Spec2Isabelle
  imports Main "HOL-Library.Word"
begin

unbundle bit_operations_syntax

section \<open>Python values used by the library\<close>

text \<open>
  A Python \<open>str\<close> is modelled as a \<open>string\<close>: one \<open>char\<close> per code point, so that
  \<open>length\<close> is Python's \<open>len\<close>. HOL characters range over the code points below 256;
  nothing below depends on that bound except \<open>encode\<close>. An optional argument whose default is
  \<open>None\<close> is a \<open>string option\<close>.
\<close>

datatype error =
    TypeError
  | ValueError string
  | RuntimeError string
  | WaiterError string
  | KeyError
  | UnboundLocalError

text \<open>Truth value of an optional string: \<open>None\<close> and the empty string are false.\<close>

definition truthy :: "string option \<Rightarrow> bool" where
  "truthy s = (case s of None \<Rightarrow> False | Some v \<Rightarrow> v \<noteq> [])"

text \<open>The slice \<open>s[:k]\<close>: a negative \<open>k\<close> counts from the end.\<close>

definition slice_to :: "int \<Rightarrow> 'a list \<Rightarrow> 'a list" where
  "slice_to k s = (if 0 \<le> k then take (nat k) s else take (length s - nat (- k)) s)"

text \<open>\<open>str.encode()\<close>: the UTF-8 bytes, one byte below 128 and two bytes from 128 to 255.\<close>

definition utf8_char :: "char \<Rightarrow> 8 word list" where
  "utf8_char c =
     (let n = (of_char c :: nat)
      in if n < 128 then [of_nat n]
         else [of_nat (192 + n div 64), of_nat (128 + n mod 64)])"

definition encode :: "string \<Rightarrow> 8 word list" where
  "encode s = concat (map utf8_char s)"

text \<open>
  \<open>binascii.crc32\<close>: the CRC-32 of zlib (reflected polynomial \<open>0xEDB88320\<close>, initial
  value and final complement \<open>0xFFFFFFFF\<close>), one bit at a time.
\<close>

definition crc32_shift :: "32 word \<Rightarrow> 32 word" where
  "crc32_shift c = (if bit c 0 then drop_bit 1 c XOR 0xEDB88320 else drop_bit 1 c)"

definition crc32_update :: "32 word \<Rightarrow> 8 word \<Rightarrow> 32 word" where
  "crc32_update c b = (crc32_shift ^^ 8) (c XOR ucast b)"

definition crc32 :: "8 word list \<Rightarrow> 32 word" where
  "crc32 bs = NOT (foldl crc32_update 0xFFFFFFFF bs)"

text \<open>
  \<open>'{0:08x}'.format(n)\<close> for a natural number: lowercase hexadecimal digits, padded with
  zeros on the left to a width of at least 8.
\<close>

definition hex_digit :: "nat \<Rightarrow> char" where
  "hex_digit d = ''0123456789abcdef'' ! d"

function to_hex :: "nat \<Rightarrow> string" where
  "to_hex n = (if n < 16 then [hex_digit n] else to_hex (n div 16) @ [hex_digit (n mod 16)])"
  by pat_completeness auto
termination
  by (relation "measure id") auto

declare to_hex.simps [simp del]

definition format_08x :: "nat \<Rightarrow> string" where
  "format_08x n = (let s = to_hex n in replicate (8 - length s) CHR ''0'' @ s)"

section \<open>AWS resources\<close>

text \<open>
  The classes \<open>AwsElasticBlockStore\<close>, \<open>AwsVolume\<close> and \<open>AwsSnapshot\<close>. The back reference
  \<open>aws_account\<close> is left out: the account is passed where it is used. The name tag is
  optional (\<open>name=None\<close>).
\<close>

record AwsElasticBlockStore =
  region :: string
  availability_zone :: string
  name :: "string option"

record AwsVolume = AwsElasticBlockStore +
  volume_id :: string

record AwsSnapshot = AwsElasticBlockStore +
  snapshot_id :: string
  volume :: AwsVolume

section \<open>Generated volume names\<close>

text \<open>
  \<open>AwsAccount._GenerateVolumeName\<close>. The argument \<open>identity\<close> is the dictionary returned by
  \<open>get_caller_identity()\<close>. Slicing a name that is \<open>None\<close> raises \<open>TypeError\<close>.
\<close>

definition GenerateVolumeName ::
  "(string \<rightharpoonup> string) \<Rightarrow> AwsSnapshot \<Rightarrow> string option \<Rightarrow> error + string" where
  "GenerateVolumeName identity snapshot volume_name_prefix =
     (let user_id = (case identity ''UserId'' of None \<Rightarrow> [] | Some u \<Rightarrow> u);
          volume_id = user_id @ volume_id (volume snapshot);
          volume_id_crc32 = format_08x (unat (crc32 (encode volume_id) AND 0xffffffff));
          truncate_at = 255 - int (length volume_id_crc32) - int (length ''-copy'') - 1
      in case name snapshot of
           None \<Rightarrow> Inl TypeError
         | Some snapshot_name \<Rightarrow>
             if truthy volume_name_prefix then
               let volume_name_prefix = the volume_name_prefix @ ''-'';
                   volume_name_prefix =
                     (if int (length volume_name_prefix) > truncate_at
                      then slice_to truncate_at volume_name_prefix
                      else volume_name_prefix);
                   truncate_at = truncate_at - int (length volume_name_prefix)
               in Inr (volume_name_prefix @ slice_to truncate_at snapshot_name
                       @ ''-'' @ volume_id_crc32 @ ''-copy'')
             else
               Inr (slice_to truncate_at snapshot_name @ ''-'' @ volume_id_crc32 @ ''-copy''))"

text \<open>The checksum string of an account identity and a source volume id.\<close>

definition checksum :: "string \<Rightarrow> string \<Rightarrow> string" where
  "checksum user_id vol_id = format_08x (unat (crc32 (encode (user_id @ vol_id)) AND 0xffffffff))"

definition user_id_of :: "(string \<rightharpoonup> string) \<Rightarrow> string" where
  "user_id_of identity = (case identity ''UserId'' of None \<Rightarrow> [] | Some u \<Rightarrow> u)"

definition is_lower_hex :: "char \<Rightarrow> bool" where
  "is_lower_hex c = (c \<in> set ''0123456789abcdef'')"

text \<open>The number that a string of lowercase hexadecimal digits denotes.\<close>

definition digit_value :: "char \<Rightarrow> nat" where
  "digit_value c = length (takeWhile (\<lambda>d. d \<noteq> c) ''0123456789abcdef'')"

definition hex_value :: "string \<Rightarrow> nat" where
  "hex_value s = foldl (\<lambda>a c. 16 * a + digit_value c) 0 s"

text \<open>
  The segment that the prefix contributes to a generated name: the prefix and its separator,
  cut to the 241 characters that the checksum and the suffix leave.
\<close>

definition prefix_segment :: "string option \<Rightarrow> string" where
  "prefix_segment p = (if truthy p then take 241 (the p @ ''-'') else [])"

section \<open>The tag value pattern\<close>

text \<open>
  \<open>REGEX_TAG_VALUE = re.compile('^.{1,255}$')\<close> and its \<open>match\<close>. Without flags, \<open>.\<close>
  matches every character but the newline, and \<open>$\<close> matches at the end of the string and
  before a newline that ends the string. A match is a number \<open>n\<close> of repetitions between 1
  and 255.
\<close>

definition REGEX_TAG_VALUE_pattern :: string where
  "REGEX_TAG_VALUE_pattern = ''^.{1,255}$''"

definition dot :: "char \<Rightarrow> bool" where
  "dot c = (c \<noteq> CHR 0x0A)"

definition dollar :: "string \<Rightarrow> bool" where
  "dollar rest = (rest = [] \<or> rest = [CHR 0x0A])"

definition REGEX_TAG_VALUE_match :: "string \<Rightarrow> bool" where
  "REGEX_TAG_VALUE_match s =
     list_ex (\<lambda>n. n \<le> length s \<and> list_all dot (take n s) \<and> dollar (drop n s)) [1..<256]"

section \<open>Creating a volume from a snapshot\<close>

record tag =
  Key :: string
  Value :: string

record tag_specification =
  ResourceType :: string
  Tags :: "tag list"

definition GetTagForResourceType :: "string \<Rightarrow> string \<Rightarrow> tag_specification" where
  "GetTagForResourceType resource tag_name =
     \<lparr>ResourceType = resource, Tags = [\<lparr>Key = ''Name'', Value = tag_name\<rparr>]\<rparr>"

text \<open>
  The requests that the library sends through the SDK, in the order sent. Only
  \<open>create_volume\<close> changes the account; the identity call and the waiter read.
\<close>

datatype sdk_call =
    GetCallerIdentity
  | CreateVolume string string tag_specification
  | WaitVolumeAvailable string


text \<open>
  The exceptions of the SDK: \<open>client.exceptions.ClientError\<close>, which \<open>create_volume\<close>
  raises, and the \<open>WaiterError\<close> of a waiter, which is no \<open>ClientError\<close>. Each carries
  its message.
\<close>

datatype sdk_exception =
    ClientError string
  | WaiterFailed string

text \<open>
  What the SDK answers: the identity dictionary, the volume id and zone of the created
  volume or the exception of \<open>create_volume\<close>, and the exception of the waiter if any.
\<close>

record aws_responses =
  caller_identity :: "string \<rightharpoonup> string"
  create_volume :: "sdk_exception + string \<times> string"
  volume_available :: "sdk_exception option"

text \<open>
  The handler \<open>except client.exceptions.ClientError\<close>: a client error becomes a
  \<open>RuntimeError\<close> whose message formats the snapshot's name with \<open>{1:s}\<close> (a \<open>TypeError\<close>
  when the name is \<open>None\<close>); an exception of another class passes.
\<close>

definition create_error :: "AwsSnapshot \<Rightarrow> string \<Rightarrow> sdk_exception \<Rightarrow> error" where
  "create_error snapshot volume_name e =
     (case e of
        ClientError msg \<Rightarrow>
          (case name snapshot of
             None \<Rightarrow> TypeError
           | Some snapshot_name \<Rightarrow>
               RuntimeError (''Error: could not create volume '' @ volume_name
                             @ '' from snapshot '' @ snapshot_name @ '': '' @ msg))
      | WaiterFailed msg \<Rightarrow> WaiterError msg)"

text \<open>
  \<open>AwsAccount.CreateVolumeFromSnapshot\<close>, for the account's \<open>default_region\<close>. The result is
  the exception or the volume, and the requests sent so far.
\<close>

definition CreateVolumeFromSnapshot ::
  "string \<Rightarrow> aws_responses \<Rightarrow> AwsSnapshot \<Rightarrow> string option \<Rightarrow> string option
     \<Rightarrow> sdk_call list \<Rightarrow> (error + AwsVolume) \<times> sdk_call list" where
  "CreateVolumeFromSnapshot default_region aws snapshot volume_name volume_name_prefix calls =
     (let (generated, calls) =
            (if \<not> truthy volume_name
             then (GenerateVolumeName (caller_identity aws) snapshot volume_name_prefix,
                   calls @ [GetCallerIdentity])
             else (Inr (the volume_name), calls))
      in case generated of
           Inl e \<Rightarrow> (Inl e, calls)
         | Inr volume_name \<Rightarrow>
             if \<not> REGEX_TAG_VALUE_match volume_name then
               (Inl (ValueError (''Error: volume name '' @ volume_name
                                 @ '' does not comply with '' @ REGEX_TAG_VALUE_pattern)),
                calls)
             else
               let calls = calls @ [CreateVolume (availability_zone snapshot)
                                      (snapshot_id snapshot)
                                      (GetTagForResourceType ''volume'' volume_name)]
               in case create_volume aws of
                    Inl e \<Rightarrow> (Inl (create_error snapshot volume_name e), calls)
                  | Inr (new_id, new_zone) \<Rightarrow>
                      let calls = calls @ [WaitVolumeAvailable new_id]
                      in case volume_available aws of
                           Some e \<Rightarrow> (Inl (create_error snapshot volume_name e), calls)
                         | None \<Rightarrow>
                             (Inr \<lparr>region = default_region, availability_zone = new_zone,
                                   name = Some volume_name, volume_id = new_id\<rparr>,
                              calls))"


section \<open>Looking a volume up\<close>

text \<open>
  An entry of the dictionary that \<open>ListVolumes\<close> returns: the keys \<open>region\<close> and \<open>zone\<close> are
  always there, \<open>name\<close> and \<open>device\<close> only when the volume has them. The dictionary itself,
  from volume id to entry, is an association list in insertion order.
\<close>

record volume_info =
  info_region :: string
  zone :: string
  info_name :: "string option"
  device :: "string option"

type_synonym volumes = "(string \<times> volume_info) list"

text \<open>\<open>AwsAccount.__GetVolumeById\<close> on the listing \<open>volumes\<close>. An entry is never empty.\<close>

definition GetVolumeById ::
  "string \<Rightarrow> volumes \<Rightarrow> string \<Rightarrow> string option \<Rightarrow> error + AwsVolume" where
  "GetVolumeById default_region volumes vol_id region_arg =
     (case map_of volumes vol_id of
        None \<Rightarrow> Inl (RuntimeError (''Volume '' @ vol_id @ '' was not found in AWS account''))
      | Some vol \<Rightarrow>
          let region_arg = (if \<not> truthy region_arg then default_region else the region_arg)
          in Inr \<lparr>region = region_arg, availability_zone = zone vol, name = None,
                  volume_id = vol_id\<rparr>)"

text \<open>\<open>AwsAccount.__GetVolumeByName\<close>: the loop counts the entries named \<open>volume_name\<close>.\<close>

definition count_named :: "volumes \<Rightarrow> string \<Rightarrow> string option \<times> nat" where
  "count_named volumes volume_name =
     foldl (\<lambda>(vol_id, count) key.
              if Option.bind (map_of volumes key) info_name = Some volume_name
              then (Some key, count + 1) else (vol_id, count))
           (None, 0) (map fst volumes)"

definition GetVolumeByName ::
  "string \<Rightarrow> volumes \<Rightarrow> string \<Rightarrow> string option \<Rightarrow> error + AwsVolume" where
  "GetVolumeByName default_region volumes volume_name region_arg =
     (let (vol_id, count) = count_named volumes volume_name
      in if count = 0 then
           Inl (RuntimeError (''Volume '' @ volume_name @ '' was not found in AWS account''))
         else if count > 1 then
           Inl (RuntimeError (''Multiple volumes with tag name '' @ volume_name
                  @ '' were found in the AWS account. Please look-up the volume by its unique ''
                  @ ''AWS volume-ID instead''))
         else
           let region_arg = (if \<not> truthy region_arg then default_region else the region_arg)
           in case Option.bind vol_id (map_of volumes) of
                None \<Rightarrow> Inl KeyError
              | Some vol \<Rightarrow>
                  Inr \<lparr>region = region_arg, availability_zone = zone vol,
                       name = Some volume_name, volume_id = the vol_id\<rparr>)"

text \<open>\<open>str(e)\<close> of an exception with a message.\<close>

fun str_error :: "error \<Rightarrow> string" where
  "str_error (ValueError msg) = msg"
| "str_error (RuntimeError msg) = msg"
| "str_error (WaiterError msg) = msg"
| "str_error TypeError = []"
| "str_error KeyError = []"
| "str_error UnboundLocalError = []"

text \<open>
  One \<open>try\<close> with \<open>except RuntimeError as exception: e = exception\<close> around a lookup that
  assigns \<open>aws_volume\<close>: the local variables are the pair (\<open>aws_volume\<close>, \<open>e\<close>), and an
  exception of another class leaves the function.
\<close>

definition try_lookup ::
  "error + AwsVolume \<Rightarrow> AwsVolume option \<times> error option
     \<Rightarrow> error + AwsVolume option \<times> error option" where
  "try_lookup r vars =
     (case r of
        Inr v \<Rightarrow> Inr (Some v, snd vars)
      | Inl (RuntimeError msg) \<Rightarrow> Inr (fst vars, Some (RuntimeError msg))
      | Inl other \<Rightarrow> Inl other)"

text \<open>
  \<open>AwsAccount.GetVolume\<close>. Each lookup lists the volumes anew: \<open>volumes1\<close> is the listing
  that the lookup by id gets and \<open>volumes2\<close> the one that the lookup by name gets. The name
  \<open>e\<close> is unbound until a handler assigns it.
\<close>

definition GetVolume ::
  "string \<Rightarrow> volumes \<Rightarrow> volumes \<Rightarrow> string \<Rightarrow> string option \<Rightarrow> error + AwsVolume" where
  "GetVolume default_region volumes1 volumes2 volume_name_or_id region_arg =
     (case try_lookup (GetVolumeById default_region volumes1 volume_name_or_id region_arg)
             (None, None) of
        Inl other \<Rightarrow> Inl other
      | Inr vars \<Rightarrow>
          (case (if fst vars = None
                 then try_lookup
                        (GetVolumeByName default_region volumes2 volume_name_or_id region_arg)
                        vars
                 else Inr vars) of
             Inl other \<Rightarrow> Inl other
           | Inr (aws_volume, e) \<Rightarrow>
               (case aws_volume of
                  None \<Rightarrow>
                    (case e of
                       None \<Rightarrow> Inl UnboundLocalError
                     | Some exception \<Rightarrow> Inl (RuntimeError (str_error exception)))
                | Some v \<Rightarrow> Inr v)))"

section \<open>Kubernetes selectors\<close>

text \<open>
  The component classes of \<open>K8sSelector\<close>: \<open>Name\<close>, \<open>Node\<close> and \<open>Running\<close> are field
  components, \<open>Label\<close> is a label component.
\<close>

datatype Component =
    Name string
  | Node string
  | Running
  | Label string string

fun Keyword :: "Component \<Rightarrow> string" where
  "Keyword (Name n) = ''field_selector''"
| "Keyword (Node n) = ''field_selector''"
| "Keyword Running = ''field_selector''"
| "Keyword (Label k v) = ''label_selector''"

fun ToString :: "Component \<Rightarrow> string" where
  "ToString (Name n) = ''metadata.name='' @ n"
| "ToString (Node n) = ''spec.nodeName='' @ n"
| "ToString Running = ''status.phase!=Failed,status.phase!=Succeeded''"
| "ToString (Label k v) = k @ ''='' @ v"

text \<open>\<open>sep.join(vs)\<close>.\<close>

fun join :: "string \<Rightarrow> string list \<Rightarrow> string" where
  "join sep [] = []"
| "join sep [v] = v"
| "join sep (v # w # vs) = v @ sep @ join sep (w # vs)"

text \<open>
  \<open>keywords[k].append(v)\<close> on a \<open>defaultdict(list)\<close>, kept as an association list in
  insertion order: a new key enters at the end with the list \<open>[v]\<close>.
\<close>

fun append_to :: "(string \<times> string list) list \<Rightarrow> string \<Rightarrow> string
    \<Rightarrow> (string \<times> string list) list" where
  "append_to [] k v = [(k, [v])]"
| "append_to ((k', vs) # kvs) k v =
     (if k' = k then (k', vs @ [v]) # kvs else (k', vs) # append_to kvs k v)"

text \<open>\<open>K8sSelector.ToKeywords\<close> of the selector whose components are \<open>selectors\<close>.\<close>

definition ToKeywords :: "Component list \<Rightarrow> (string \<times> string) list" where
  "ToKeywords selectors =
     (let keywords = foldl (\<lambda>kw selector. append_to kw (Keyword selector) (ToString selector))
                       [] selectors
      in map (\<lambda>(k, vs). (k, join '','' vs)) keywords)"

text \<open>The loop of \<open>ToKeywords\<close>, started from any dictionary \<open>kw\<close>.\<close>

definition collect :: "(string \<times> string list) list \<Rightarrow> Component list
    \<Rightarrow> (string \<times> string list) list" where
  "collect kw selectors =
     foldl (\<lambda>kw selector. append_to kw (Keyword selector) (ToString selector)) kw selectors"

text \<open>
  \<open>K8sSelector.FromDict\<close>: the dictionary \<open>labels\<close> is an association list in iteration
  order, iterated by key and read with \<open>labels[k]\<close>.
\<close>

definition FromDict :: "(string \<times> string) list \<Rightarrow> Component list" where
  "FromDict labels = map (\<lambda>k. Label k (the (map_of labels k))) (map fst labels)"

text \<open>The rendered fragments of the components of one kind, in their order.\<close>

definition fragments :: "string \<Rightarrow> Component list \<Rightarrow> string list" where
  "fragments kind selectors = map ToString (filter (\<lambda>c. Keyword c = kind) selectors)"

text \<open>
  Re-splitting, after the specification's round trip (the library has no such function):
  \<open>split_on\<close> is \<open>s.split(sep)\<close>; in the field selector the two halves of the fragment of
  \<open>Running\<close>, which the split separates, are put together again.
\<close>

fun split_on :: "char \<Rightarrow> string \<Rightarrow> string list" where
  "split_on sep [] = [[]]"
| "split_on sep (c # cs) =
     (if c = sep then [] # split_on sep cs
      else (case split_on sep cs of
              [] \<Rightarrow> [[c]]
            | w # ws \<Rightarrow> (c # w) # ws))"

fun merge_running :: "string list \<Rightarrow> string list" where
  "merge_running (a # b # rest) =
     (if a = ''status.phase!=Failed'' \<and> b = ''status.phase!=Succeeded''
      then (a @ '','' @ b) # merge_running rest
      else a # merge_running (b # rest))"
| "merge_running fs = fs"

definition resplit :: "string \<Rightarrow> string \<Rightarrow> string list" where
  "resplit kind s =
     (if kind = ''field_selector'' then merge_running (split_on CHR '','' s)
      else split_on CHR '','' s)"

section \<open>Properties of the checksum rendering\<close>

lemma hex_digit_lower: "d < 16 \<Longrightarrow> is_lower_hex (hex_digit d)"
  unfolding hex_digit_def is_lower_hex_def by (rule nth_mem) simp

lemma to_hex_lower: "\<forall>c \<in> set (to_hex n). is_lower_hex c"
proof (induction n rule: to_hex.induct)
  case (1 n)
  show ?case
  proof (cases "n < 16")
    case True
    then show ?thesis
      by (subst to_hex.simps) (simp add: hex_digit_lower)
  next
    case False
    with 1 show ?thesis
      by (subst to_hex.simps) (simp add: hex_digit_lower)
  qed
qed

lemma to_hex_length: "0 < k \<Longrightarrow> n < 16 ^ k \<Longrightarrow> length (to_hex n) \<le> k"
proof (induction n arbitrary: k rule: to_hex.induct)
  case (1 n)
  show ?case
  proof (cases "n < 16")
    case True
    with 1(2) show ?thesis
      by (subst to_hex.simps) simp
  next
    case False
    with 1(3) have k1: "1 < k"
      by (cases "k = 1") (use 1(2) in auto)
    then obtain j where j: "k = Suc j" "0 < j"
      by (cases k) auto
    from 1(3) j have "n div 16 < 16 ^ j"
      by (simp add: less_mult_imp_div_less mult.commute)
    with 1(1) [OF False j(2)] have "length (to_hex (n div 16)) \<le> j" .
    with False j show ?thesis
      by (subst to_hex.simps) simp
  qed
qed

lemma to_hex_nonempty: "to_hex n \<noteq> []"
  by (subst to_hex.simps) simp

lemma format_08x_length: "n < 2 ^ 32 \<Longrightarrow> length (format_08x n) = 8"
proof -
  assume "n < 2 ^ 32"
  then have "n < 16 ^ 8" by simp
  then have "length (to_hex n) \<le> 8"
    by (intro to_hex_length) simp_all
  then show ?thesis
    by (simp add: format_08x_def Let_def)
qed

lemma zero_lower: "is_lower_hex CHR ''0''"
  by (simp add: is_lower_hex_def)

lemma format_08x_lower: "\<forall>c \<in> set (format_08x n). is_lower_hex c"
  using to_hex_lower [of n]
  by (auto simp: format_08x_def Let_def zero_lower)

lemma checksum_length: "length (checksum u v) = 8"
proof -
  have "unat (crc32 (encode (u @ v)) AND 0xffffffff) < 2 ^ 32"
    using unsigned_less [of "crc32 (encode (u @ v)) AND 0xffffffff", where 'a = nat]
    by simp
  then show ?thesis
    unfolding checksum_def by (rule format_08x_length)
qed

lemma checksum_lower: "\<forall>c \<in> set (checksum u v). is_lower_hex c"
  unfolding checksum_def by (rule format_08x_lower)

lemma lt16_cases:
  "d < 16 \<Longrightarrow> d \<in> {0, 1, 2, 3, 4, 5, 6, 7, 8, 9, 10, 11, 12, 13, 14, 15::nat}"
  by (simp only: insert_iff empty_iff) arith

lemma digit_value_hex_digit: "d < 16 \<Longrightarrow> digit_value (hex_digit d) = d"
  by (drule lt16_cases) (elim insertE emptyE; simp add: hex_digit_def digit_value_def)

lemma hex_value_snoc: "hex_value (s @ [c]) = 16 * hex_value s + digit_value c"
  by (simp add: hex_value_def)

lemma hex_value_to_hex: "hex_value (to_hex n) = n"
proof (induction n rule: to_hex.induct)
  case (1 n)
  show ?case
  proof (cases "n < 16")
    case True
    then show ?thesis
      by (subst to_hex.simps) (simp add: hex_value_def digit_value_hex_digit)
  next
    case False
    with 1 show ?thesis
      by (subst to_hex.simps) (simp add: hex_value_snoc digit_value_hex_digit)
  qed
qed

lemma hex_value_zeros: "hex_value (replicate k CHR ''0'' @ s) = hex_value s"
proof (induction k)
  case 0
  show ?case by simp
next
  case (Suc k)
  have "foldl (\<lambda>a c. 16 * a + digit_value c) 0 (CHR ''0'' # xs)
        = foldl (\<lambda>a c. 16 * a + digit_value c) 0 xs" for xs
    by (simp add: digit_value_def)
  with Suc show ?case by (simp add: hex_value_def)
qed

lemma hex_value_format_08x: "hex_value (format_08x n) = n"
  by (simp add: format_08x_def Let_def hex_value_zeros hex_value_to_hex)

lemma mask32: "(x :: 32 word) AND 0xffffffff = x"
proof -
  have h: "(0xffffffff :: 32 word) = - 1" by simp
  show ?thesis unfolding h by (rule and.right_neutral)
qed

lemma hex_value_checksum: "hex_value (checksum u v) = unat (crc32 (encode (u @ v)))"
  unfolding checksum_def mask32 by (rule hex_value_format_08x)

lemma crc32_check_value: "crc32 (encode ''a'') = 0xE8B7BE43"
  by code_simp

section \<open>Properties of the generated volume name\<close>

lemma snapshot_name_update:
  "name (snapshot\<lparr>name := Some n\<rparr>) = Some n"
  "volume (snapshot\<lparr>name := Some n\<rparr>) = volume snapshot"
  by (cases snapshot, simp)+

text \<open>
  The generated name in closed form: the arithmetic on \<open>truncate_at\<close> never goes below
  zero, so each slice keeps left-most characters.
\<close>

lemma GenerateVolumeName_formula:
  "GenerateVolumeName identity (snapshot\<lparr>name := Some n\<rparr>) p =
     Inr (prefix_segment p @ take (241 - length (prefix_segment p)) n @ ''-''
          @ checksum (user_id_of identity) (volume_id (volume snapshot)) @ ''-copy'')"
proof -
  let ?c = "checksum (user_id_of identity) (volume_id (volume snapshot))"
  have len: "length ?c = 8" by (rule checksum_length)
  show ?thesis
    apply (simp only: GenerateVolumeName_def Let_def snapshot_name_update option.case)
    apply (fold user_id_of_def)
    apply (fold checksum_def)
    apply (simp only: len)
    apply (simp add: slice_to_def prefix_segment_def nat_diff_distrib' min_def)
    done
qed

lemma prefix_segment_length: "length (prefix_segment p) \<le> 241"
  by (cases "truthy p") (simp_all add: prefix_segment_def del: take_append)

lemma generated_length:
  "14 \<le> length (prefix_segment p @ take (241 - length (prefix_segment p)) n @ ''-''
          @ checksum u v @ ''-copy'')
   \<and> length (prefix_segment p @ take (241 - length (prefix_segment p)) n @ ''-''
          @ checksum u v @ ''-copy'') \<le> 255"
  using prefix_segment_length [of p] by (simp add: checksum_length)

text \<open>
  Claim C2. For every display name \<open>n\<close> of the snapshot, every source volume id, every
  identity dictionary and every prefix argument (absent, empty, or of any length), the
  generator returns a name, and that name is non-empty and at most 255 characters long.
\<close>

theorem C2_name_length:
  "\<exists>r. GenerateVolumeName identity (snapshot\<lparr>name := Some n\<rparr>) p = Inr r
       \<and> 0 < length r \<and> length r \<le> 255"
proof -
  let ?r = "prefix_segment p @ take (241 - length (prefix_segment p)) n @ ''-''
          @ checksum (user_id_of identity) (volume_id (volume snapshot)) @ ''-copy''"
  have "GenerateVolumeName identity (snapshot\<lparr>name := Some n\<rparr>) p = Inr ?r"
    by (rule GenerateVolumeName_formula)
  moreover have "0 < length ?r" "length ?r \<le> 255"
    using generated_length [of p n "user_id_of identity" "volume_id (volume snapshot)"]
    by linarith+
  ultimately show ?thesis by blast
qed

theorem C2_name_length_witness:
  "\<exists>r. GenerateVolumeName (Map.empty(''UserId'' \<mapsto> ''AIDA''))
         (\<lparr>region = ''us-east-2'', availability_zone = ''us-east-2b'', name = None,
           snapshot_id = ''snap-1'',
           volume = \<lparr>region = ''us-east-2'', availability_zone = ''us-east-2b'',
                     name = None, volume_id = ''vol-1''\<rparr>\<rparr>\<lparr>name := Some (replicate 300 CHR ''n'')\<rparr>)
         (Some (replicate 300 CHR ''p'')) = Inr r
       \<and> 0 < length r \<and> length r \<le> 255"
  by (rule C2_name_length)

text \<open>
  Claim C10. The empty string as prefix gives the same result as no prefix, for every
  snapshot; the name then has no prefix segment and no leading separator. The default
  prefix \<open>''\<close> of \<open>CreateVolumeFromSnapshot\<close> therefore behaves as \<open>None\<close> does.
\<close>

theorem C10_empty_prefix:
  "GenerateVolumeName identity snapshot (Some []) = GenerateVolumeName identity snapshot None
   \<and> GenerateVolumeName identity (snapshot\<lparr>name := Some n\<rparr>) (Some []) =
       Inr (take 241 n @ ''-'' @ checksum (user_id_of identity) (volume_id (volume snapshot))
            @ ''-copy'')
   \<and> CreateVolumeFromSnapshot d aws snapshot None (Some []) calls =
       CreateVolumeFromSnapshot d aws snapshot None None calls"
proof -
  have a: "GenerateVolumeName i snapshot (Some []) = GenerateVolumeName i snapshot None" for i
    by (simp add: GenerateVolumeName_def truthy_def Let_def split: option.splits)
  have b: "prefix_segment (Some []) = []"
    by (simp add: prefix_segment_def truthy_def)
  show ?thesis
    by (simp add: a GenerateVolumeName_formula b CreateVolumeFromSnapshot_def)
qed

theorem C10_empty_prefix_witness:
  "GenerateVolumeName (Map.empty(''UserId'' \<mapsto> ''AIDA''))
     \<lparr>region = ''us-east-2'', availability_zone = ''us-east-2b'', name = Some ''disk'',
      snapshot_id = ''snap-1'',
      volume = \<lparr>region = ''us-east-2'', availability_zone = ''us-east-2b'',
                name = None, volume_id = ''vol-1''\<rparr>\<rparr> (Some [])
   = Inr (''disk-'' @ checksum ''AIDA'' ''vol-1'' @ ''-copy'')"
  using C10_empty_prefix [of "Map.empty(''UserId'' \<mapsto> ''AIDA'')"
     "\<lparr>region = ''us-east-2'', availability_zone = ''us-east-2b'', name = None,
      snapshot_id = ''snap-1'',
      volume = \<lparr>region = ''us-east-2'', availability_zone = ''us-east-2b'',
                name = None, volume_id = ''vol-1''\<rparr>\<rparr>" "''disk''"]
  by (simp add: user_id_of_def)

lemma prefix_segment_cases:
  "prefix_segment None = []"
  "prefix_segment (Some []) = []"
  "q \<noteq> [] \<Longrightarrow> length q \<le> 240 \<Longrightarrow> prefix_segment (Some q) = q @ ''-''"
  "241 \<le> length q \<Longrightarrow> prefix_segment (Some q) = take 241 q"
  by (auto simp: prefix_segment_def truthy_def)

text \<open>
  Claim C1, as the code has it. The generated name is the prefix segment, the display name
  cut to the characters that remain of 241, \<open>-\<close>, the checksum and \<open>-copy\<close>. The prefix
  segment is empty without a prefix, the prefix and \<open>-\<close> for a prefix of at most 240
  characters, and the left-most 241 characters of a longer prefix, with no separator of its
  own. The checksum is 8 lowercase hexadecimal digits that denote the CRC-32 of the UTF-8
  bytes of the identity followed by the source volume id.
\<close>

theorem C1_generated_name:
  "GenerateVolumeName identity (snapshot\<lparr>name := Some n\<rparr>) p =
     Inr (prefix_segment p @ take (241 - length (prefix_segment p)) n @ ''-''
          @ checksum (user_id_of identity) (volume_id (volume snapshot)) @ ''-copy'')
   \<and> prefix_segment None = [] \<and> prefix_segment (Some []) = []
   \<and> (q \<noteq> [] \<and> length q \<le> 240 \<longrightarrow> prefix_segment (Some q) = q @ ''-'')
   \<and> (241 \<le> length q \<longrightarrow> prefix_segment (Some q) = take 241 q)
   \<and> length (checksum u v) = 8
   \<and> list_all is_lower_hex (checksum u v)
   \<and> hex_value (checksum u v) = unat (crc32 (encode (u @ v)))"
  using checksum_lower [of u v]
  by (simp add: GenerateVolumeName_formula prefix_segment_cases checksum_length
      hex_value_checksum list_all_iff)

text \<open>
  Claim C1 as stated fails for a prefix of 241 characters: the name is then the prefix
  followed by \<open>-\<close>, the checksum and \<open>-copy\<close>. Before the separator of the checksum there
  is no \<open>-\<close>, hence no prefix segment that ends in one.
\<close>

theorem C1_counterexample:
  "GenerateVolumeName (map_of [(''UserId'', ''AIDA'')])
       \<lparr>region = ''us-east-2'', availability_zone = ''us-east-2b'', name = Some ''disk'',
        snapshot_id = ''snap-1'',
        volume = \<lparr>region = ''us-east-2'', availability_zone = ''us-east-2b'',
                  name = None, volume_id = ''vol-1''\<rparr>\<rparr>
       (Some (replicate 241 CHR ''p''))
     = Inr (replicate 241 CHR ''p'' @ ''-'' @ checksum ''AIDA'' ''vol-1'' @ ''-copy'')
   \<and> CHR ''-'' \<notin> set (replicate 241 CHR ''p'')"
proof -
  have ps: "prefix_segment (Some (replicate 241 CHR ''p'')) = replicate 241 CHR ''p''"
    by (simp add: prefix_segment_cases(4))
  have "GenerateVolumeName (map_of [(''UserId'', ''AIDA'')])
       (\<lparr>region = ''us-east-2'', availability_zone = ''us-east-2b'', name = None,
        snapshot_id = ''snap-1'',
        volume = \<lparr>region = ''us-east-2'', availability_zone = ''us-east-2b'',
                  name = None, volume_id = ''vol-1''\<rparr>\<rparr>\<lparr>name := Some ''disk''\<rparr>)
       (Some (replicate 241 CHR ''p''))
     = Inr (replicate 241 CHR ''p'' @ ''-'' @ checksum ''AIDA'' ''vol-1'' @ ''-copy'')"
    unfolding GenerateVolumeName_formula ps by (simp add: user_id_of_def)
  then show ?thesis by simp
qed

text \<open>
  The same input against every reading of the stated form: no segment that is empty or
  ends in \<open>-\<close>, followed by a cut of the display name \<open>disk\<close>, gives the generated name.
\<close>

lemma long_prefix_no_dash_segment:
  "\<not> (\<exists>seg k. (seg = [] \<or> last seg = CHR ''-'')
        \<and> GenerateVolumeName (Map.empty(''UserId'' \<mapsto> ''AIDA''))
             \<lparr>region = ''us-east-2'', availability_zone = ''us-east-2b'', name = Some ''disk'',
              snapshot_id = ''snap-1'',
              volume = \<lparr>region = ''us-east-2'', availability_zone = ''us-east-2b'',
                        name = None, volume_id = ''vol-1''\<rparr>\<rparr>
             (Some (replicate 241 CHR ''p''))
           = Inr (seg @ take k ''disk'' @ ''-'' @ checksum ''AIDA'' ''vol-1'' @ ''-copy''))"
proof
  let ?snap = "\<lparr>region = ''us-east-2'', availability_zone = ''us-east-2b'', name = None,
              snapshot_id = ''snap-1'',
              volume = \<lparr>region = ''us-east-2'', availability_zone = ''us-east-2b'',
                        name = None, volume_id = ''vol-1''\<rparr>\<rparr>"
  let ?tail = "''-'' @ checksum ''AIDA'' ''vol-1'' @ ''-copy''"
  assume "\<exists>seg k. (seg = [] \<or> last seg = CHR ''-'')
        \<and> GenerateVolumeName (Map.empty(''UserId'' \<mapsto> ''AIDA''))
             \<lparr>region = ''us-east-2'', availability_zone = ''us-east-2b'', name = Some ''disk'',
              snapshot_id = ''snap-1'',
              volume = \<lparr>region = ''us-east-2'', availability_zone = ''us-east-2b'',
                        name = None, volume_id = ''vol-1''\<rparr>\<rparr>
             (Some (replicate 241 CHR ''p''))
           = Inr (seg @ take k ''disk'' @ ''-'' @ checksum ''AIDA'' ''vol-1'' @ ''-copy'')"
  then obtain seg k where seg: "seg = [] \<or> last seg = CHR ''-''"
    and eq: "GenerateVolumeName (Map.empty(''UserId'' \<mapsto> ''AIDA''))
             (?snap\<lparr>name := Some ''disk''\<rparr>) (Some (replicate 241 CHR ''p''))
           = Inr (seg @ take k ''disk'' @ ?tail)"
    by auto
  have ps: "prefix_segment (Some (replicate 241 CHR ''p'')) = replicate 241 CHR ''p''"
    by (simp add: prefix_segment_cases(4))
  have "GenerateVolumeName (Map.empty(''UserId'' \<mapsto> ''AIDA''))
             (?snap\<lparr>name := Some ''disk''\<rparr>) (Some (replicate 241 CHR ''p''))
        = Inr (replicate 241 CHR ''p'' @ ?tail)"
    unfolding GenerateVolumeName_formula ps by (simp add: user_id_of_def)
  with eq have "replicate 241 CHR ''p'' @ ?tail = (seg @ take k ''disk'') @ ?tail"
    by simp
  then have rep: "replicate 241 CHR ''p'' = seg @ take k ''disk''"
    by (simp only: append_same_eq)
  have "set (take k ''disk'') \<subseteq> set (replicate 241 CHR ''p'')"
    unfolding rep by simp
  then have sub: "set (take k ''disk'') \<subseteq> {CHR ''p''}"
    by simp
  have k0: "k = 0"
  proof (cases k)
    case 0
    then show ?thesis .
  next
    case (Suc j)
    then have "CHR ''d'' \<in> set (take k ''disk'')" by simp
    with sub show ?thesis by auto
  qed
  with rep have s: "seg = replicate 241 CHR ''p''"
    by simp
  then have "seg \<noteq> []" "last seg = CHR ''p''"
    by simp_all
  with seg show False by simp
qed


theorem C1_generated_name_witness:
  "GenerateVolumeName (Map.empty(''UserId'' \<mapsto> ''AIDA''))
     \<lparr>region = ''us-east-2'', availability_zone = ''us-east-2b'', name = Some ''disk'',
      snapshot_id = ''snap-1'',
      volume = \<lparr>region = ''us-east-2'', availability_zone = ''us-east-2b'',
                name = None, volume_id = ''vol-1''\<rparr>\<rparr> (Some ''evidence'')
   = Inr (''evidence-disk-'' @ checksum ''AIDA'' ''vol-1'' @ ''-copy'')
   \<and> length (checksum ''AIDA'' ''vol-1'') = 8"
  using C1_generated_name [where identity = "Map.empty(''UserId'' \<mapsto> ''AIDA'')"
     and snapshot = "\<lparr>region = ''us-east-2'', availability_zone = ''us-east-2b'', name = None,
      snapshot_id = ''snap-1'',
      volume = \<lparr>region = ''us-east-2'', availability_zone = ''us-east-2b'',
                name = None, volume_id = ''vol-1''\<rparr>\<rparr>"
     and n = "''disk''" and p = "Some ''evidence''" and q = "''evidence''"
     and u = "''AIDA''" and v = "''vol-1''"]
  by (simp add: user_id_of_def)





section \<open>Properties of the selectors\<close>

text \<open>
  Claim C6. The four components render to exactly \<open>metadata.name=\<close> and the name,
  \<open>spec.nodeName=\<close> and the node, \<open>status.phase!=Failed,status.phase!=Succeeded\<close>, and the
  key, \<open>=\<close> and the value; \<open>Name\<close>, \<open>Node\<close> and \<open>Running\<close> are of kind \<open>field_selector\<close>
  and \<open>Label\<close> of kind \<open>label_selector\<close>. The fragment of \<open>Running\<close> has one comma and is
  one fragment of the keyword map.
\<close>

theorem C6_rendering:
  "ToString (Name n) = ''metadata.name='' @ n
   \<and> ToString (Node m) = ''spec.nodeName='' @ m
   \<and> ToString Running = ''status.phase!=Failed,status.phase!=Succeeded''
   \<and> ToString (Label k v) = k @ ''='' @ v
   \<and> Keyword (Name n) = ''field_selector''
   \<and> Keyword (Node m) = ''field_selector''
   \<and> Keyword Running = ''field_selector''
   \<and> Keyword (Label k v) = ''label_selector''
   \<and> count_list (ToString Running) CHR '','' = 1
   \<and> ToKeywords [Running] = [(''field_selector'', ToString Running)]"
  by (simp add: ToKeywords_def)

theorem C6_rendering_witness:
  "ToString (Name ''foo'') = ''metadata.name=foo''
   \<and> ToString (Node ''node-1'') = ''spec.nodeName=node-1''
   \<and> ToString (Label ''app'' ''web'') = ''app=web''
   \<and> Keyword (Label ''app'' ''web'') = ''label_selector''"
  using C6_rendering [of "''foo''" "''node-1''" "''app''" "''web''"]
  by simp

lemma map_of_append_to:
  "map_of (append_to kw k v) k' =
     (if k' = k then Some ((case map_of kw k of None \<Rightarrow> [] | Some vs \<Rightarrow> vs) @ [v])
      else map_of kw k')"
  by (induction kw k v rule: append_to.induct) auto

lemma keys_append_to: "fst ` set (append_to kw k v) = insert k (fst ` set kw)"
  by (induction kw k v rule: append_to.induct) auto

lemma distinct_append_to:
  "distinct (map fst kw) \<Longrightarrow> distinct (map fst (append_to kw k v))"
proof (induction kw k v rule: append_to.induct)
  case (1 k v)
  show ?case by simp
next
  case (2 k' vs kvs k v)
  then show ?case
    using keys_append_to [of kvs k v] by auto
qed

lemma collect_simps:
  "collect kw [] = kw"
  "collect kw (c # cs) = collect (append_to kw (Keyword c) (ToString c)) cs"
  by (simp_all add: collect_def)

lemma map_of_collect:
  "map_of (collect kw sels) kind =
     (case map_of kw kind of
        None \<Rightarrow> if fragments kind sels = [] then None else Some (fragments kind sels)
      | Some vs \<Rightarrow> Some (vs @ fragments kind sels))"
proof (induction sels arbitrary: kw)
  case Nil
  show ?case by (simp add: collect_simps fragments_def split: option.splits)
next
  case (Cons c cs)
  show ?case
    by (simp add: collect_simps Cons map_of_append_to fragments_def split: option.splits)
qed

lemma keys_collect:
  "fst ` set (collect kw sels) = fst ` set kw \<union> Keyword ` set sels"
proof (induction sels arbitrary: kw)
  case Nil
  show ?case by (simp add: collect_simps)
next
  case (Cons c cs)
  show ?case
    unfolding collect_simps Cons keys_append_to by auto
qed

lemma distinct_collect:
  "distinct (map fst kw) \<Longrightarrow> distinct (map fst (collect kw sels))"
  by (induction sels arbitrary: kw) (simp_all add: collect_simps distinct_append_to)

lemma ToKeywords_collect:
  "ToKeywords sels = map (\<lambda>(k, vs). (k, join '','' vs)) (collect [] sels)"
  by (simp add: ToKeywords_def collect_def)

lemma keys_ToKeywords: "map fst (ToKeywords sels) = map fst (collect [] sels)"
  by (simp add: ToKeywords_collect case_prod_unfold comp_def)

lemma map_of_ToKeywords:
  "map_of (ToKeywords sels) kind =
     (if fragments kind sels = [] then None else Some (join '','' (fragments kind sels)))"
  by (simp add: ToKeywords_collect map_of_map map_of_collect)

text \<open>
  Claim C5. For every list of components and every kind, the keyword map has an entry for
  the kind exactly when a component has that kind, and the entry is the fragments of the
  components of that kind, in their order, joined with commas. No key occurs twice, the
  keys are the kinds of the components, and the map of no components is empty.
\<close>

theorem C5_ToKeywords:
  "map_of (ToKeywords sels) kind =
     (if fragments kind sels = [] then None else Some (join '','' (fragments kind sels)))
   \<and> fragments kind sels = map ToString (filter (\<lambda>c. Keyword c = kind) sels)
   \<and> distinct (map fst (ToKeywords sels))
   \<and> set (map fst (ToKeywords sels)) = Keyword ` set sels
   \<and> ToKeywords [] = []"
proof (intro conjI)
  show "map_of (ToKeywords sels) kind =
     (if fragments kind sels = [] then None else Some (join '','' (fragments kind sels)))"
    by (rule map_of_ToKeywords)
  show "fragments kind sels = map ToString (filter (\<lambda>c. Keyword c = kind) sels)"
    by (rule fragments_def)
  show "distinct (map fst (ToKeywords sels))"
    unfolding keys_ToKeywords by (rule distinct_collect) simp
  show "set (map fst (ToKeywords sels)) = Keyword ` set sels"
    unfolding keys_ToKeywords using keys_collect [of "[]" sels] by simp
  show "ToKeywords [] = []"
    by (simp add: ToKeywords_def)
qed

theorem C5_ToKeywords_witness:
  "ToKeywords [Name ''foo'', Running, Label ''app'' ''web''] =
     [(''field_selector'', ''metadata.name=foo,status.phase!=Failed,status.phase!=Succeeded''),
      (''label_selector'', ''app=web'')]
   \<and> map_of (ToKeywords [Name ''foo'']) ''label_selector'' = None"
  using C5_ToKeywords [of "[Name ''foo'']" "''label_selector''"]
  by (simp add: ToKeywords_def fragments_def)

lemma FromDict_items:
  assumes "distinct (map fst labels)"
  shows "FromDict labels = map (\<lambda>(k, v). Label k v) labels"
proof -
  have "Label (fst kv) (the (map_of labels (fst kv))) = (case kv of (k, v) \<Rightarrow> Label k v)"
    if "kv \<in> set labels" for kv
  proof -
    obtain k v where kv: "kv = (k, v)" by (cases kv)
    with that assms have "map_of labels k = Some v" by simp
    with kv show ?thesis by simp
  qed
  then show ?thesis
    by (simp add: FromDict_def comp_def)
qed

lemma fragments_labels:
  "fragments ''label_selector'' (map (\<lambda>(k, v). Label k v) labels)
     = map (\<lambda>(k, v). k @ ''='' @ v) labels"
  "fragments ''field_selector'' (map (\<lambda>(k, v). Label k v) labels) = []"
  by (induction labels) (auto simp: fragments_def)

text \<open>
  Claim C8, as the code has it. For a dictionary with distinct keys, \<open>FromDict\<close> builds one
  \<open>Label\<close> per entry in iteration order. When the dictionary is not empty, the keyword map
  has the \<open>label_selector\<close> value made of the fragments \<open>k=v\<close> joined with commas in that
  order; when it is empty, the keyword map has no \<open>label_selector\<close> entry. There is never
  a \<open>field_selector\<close> entry.
\<close>

theorem C8_FromDict:
  "distinct (map fst labels) \<Longrightarrow>
     FromDict labels = map (\<lambda>(k, v). Label k v) labels
     \<and> map_of (ToKeywords (FromDict labels)) ''label_selector'' =
         (if labels = [] then None
          else Some (join '','' (map (\<lambda>(k, v). k @ ''='' @ v) labels)))
     \<and> map_of (ToKeywords (FromDict labels)) ''field_selector'' = None"
  by (simp add: FromDict_items map_of_ToKeywords fragments_labels)

theorem C8_FromDict_witness:
  "distinct (map fst [(''app'', ''web''), (''tier'', ''frontend'')])
   \<and> ToKeywords (FromDict [(''app'', ''web''), (''tier'', ''frontend'')])
       = [(''label_selector'', ''app=web,tier=frontend'')]
   \<and> map_of (ToKeywords (FromDict [(''app'', ''web''), (''tier'', ''frontend'')]))
         ''label_selector'' = Some ''app=web,tier=frontend''"
proof -
  have d: "distinct (map fst [(''app'', ''web''), (''tier'', ''frontend'')])" by simp
  show ?thesis
    using C8_FromDict [OF d] by (simp add: ToKeywords_def)
qed

text \<open>
  Claim C8 as stated fails for the empty dictionary: the keyword map has no
  \<open>label_selector\<close> value at all, so none that equals the joined fragments.
\<close>

theorem C8_counterexample:
  "map_of (ToKeywords (FromDict [])) ''label_selector'' = None
   \<and> ToKeywords (FromDict []) = []"
  by (simp add: FromDict_def ToKeywords_def)

lemma split_on_nonempty: "split_on sep s \<noteq> []"
  by (induction s) (auto split: list.splits)

lemma split_on_append:
  "split_on sep (a @ sep # b) = split_on sep a @ split_on sep b"
proof (induction a)
  case Nil
  show ?case by simp
next
  case (Cons c cs)
  obtain w ws where w: "split_on sep cs = w # ws"
    using split_on_nonempty [of sep cs] by (cases "split_on sep cs") auto
  with Cons show ?case by simp
qed

lemma split_on_join:
  "fs \<noteq> [] \<Longrightarrow> split_on sep (join [sep] fs) = concat (map (split_on sep) fs)"
proof (induction "[sep]" fs rule: join.induct)
  case 1
  then show ?case by simp
next
  case (2 v)
  show ?case by simp
next
  case (3 v w vs)
  then show ?case by (simp add: split_on_append)
qed

lemma split_on_none: "sep \<notin> set s \<Longrightarrow> split_on sep s = [s]"
  by (induction s) auto


lemma concat_split_comma_free:
  "\<forall>f\<in>set fs. sep \<notin> set f \<Longrightarrow> concat (map (split_on sep) fs) = fs"
  by (induction fs) (simp_all add: split_on_none)

lemma split_on_Running:
  "split_on CHR '','' (ToString Running) = [''status.phase!=Failed'', ''status.phase!=Succeeded'']"
  by simp

lemma merge_running_other:
  "f \<noteq> ''status.phase!=Failed'' \<Longrightarrow> merge_running (f # fs) = f # merge_running fs"
  by (cases fs) simp_all

lemma merge_running_fields:
  assumes "\<forall>c\<in>set cs. c \<noteq> Running \<longrightarrow> CHR '','' \<notin> set (ToString c)"
  shows "merge_running (concat (map (split_on CHR '','') (fragments ''field_selector'' cs)))
         = fragments ''field_selector'' cs"
  using assms
proof (induction cs)
  case Nil
  show ?case by (simp add: fragments_def)
next
  case (Cons c cs)
  then have IH: "merge_running (concat (map (split_on CHR '','') (fragments ''field_selector'' cs)))
         = fragments ''field_selector'' cs"
    by simp
  show ?case
  proof (cases c)
    case (Name n)
    with Cons.prems have "split_on CHR '','' (ToString c) = [ToString c]"
      by (intro split_on_none) simp
    moreover have "ToString c \<noteq> ''status.phase!=Failed''"
      using Name by simp
    ultimately show ?thesis
      using Name IH by (simp add: fragments_def merge_running_other del: ToString.simps)
  next
    case (Node n)
    with Cons.prems have "split_on CHR '','' (ToString c) = [ToString c]"
      by (intro split_on_none) simp
    moreover have "ToString c \<noteq> ''status.phase!=Failed''"
      using Node by simp
    ultimately show ?thesis
      using Node IH by (simp add: fragments_def merge_running_other del: ToString.simps)
  next
    case Running
    with IH show ?thesis
      by (simp add: fragments_def)
  next
    case (Label k v)
    with IH show ?thesis
      by (simp add: fragments_def)
  qed
qed

text \<open>
  Claim C7. For every list of components in which only \<open>Running\<close> renders with a comma,
  and every kind, re-splitting the entry that the keyword map has for the kind gives back
  the fragments of that kind in their order; the kind has no entry exactly when it has no
  fragment, and then the list recovered is the empty one.
\<close>

theorem C7_round_trip:
  "(\<forall>c\<in>set sels. c \<noteq> Running \<longrightarrow> CHR '','' \<notin> set (ToString c)) \<Longrightarrow>
   (case map_of (ToKeywords sels) kind of None \<Rightarrow> [] | Some s \<Rightarrow> resplit kind s)
     = fragments kind sels"
proof (cases "fragments kind sels = []")
  case True
  then show ?thesis
    by (simp add: map_of_ToKeywords)
next
  case ne: False
  assume free: "\<forall>c\<in>set sels. c \<noteq> Running \<longrightarrow> CHR '','' \<notin> set (ToString c)"
  let ?s = "join '','' (fragments kind sels)"
  from ne have entry: "map_of (ToKeywords sels) kind = Some ?s"
    by (simp add: map_of_ToKeywords)
  from ne have split:
    "split_on CHR '','' ?s = concat (map (split_on CHR '','') (fragments kind sels))"
    by (rule split_on_join)
  have "resplit kind ?s = fragments kind sels"
  proof (cases "kind = ''field_selector''")
    case True
    with split free show ?thesis
      by (simp add: resplit_def merge_running_fields)
  next
    case False
    have "\<forall>f\<in>set (fragments kind sels). CHR '','' \<notin> set f"
    proof
      fix f assume "f \<in> set (fragments kind sels)"
      then obtain c where c: "c \<in> set sels" "Keyword c = kind" "f = ToString c"
        by (auto simp: fragments_def)
      with False have "c \<noteq> Running" by auto
      with free c show "CHR '','' \<notin> set f" by blast
    qed
    then have "concat (map (split_on CHR '','') (fragments kind sels)) = fragments kind sels"
      by (rule concat_split_comma_free)
    with split False show ?thesis
      by (simp add: resplit_def)
  qed
  with entry show ?thesis by simp
qed

theorem C7_round_trip_witness:
  "CHR '','' \<notin> set (ToString (Name ''foo''))
   \<and> CHR '','' \<notin> set (ToString (Label ''app'' ''web''))
   \<and> map_of (ToKeywords [Name ''foo'', Running, Label ''app'' ''web'']) ''field_selector''
       = Some ''metadata.name=foo,status.phase!=Failed,status.phase!=Succeeded''
   \<and> resplit ''field_selector'' ''metadata.name=foo,status.phase!=Failed,status.phase!=Succeeded''
       = [''metadata.name=foo'', ''status.phase!=Failed,status.phase!=Succeeded'']
   \<and> map_of (ToKeywords [Name ''foo'', Running]) ''label_selector'' = None
   \<and> fragments ''label_selector'' [Name ''foo'', Running] = []"
proof -
  have h1: "\<forall>c\<in>set [Name ''foo'', Running, Label ''app'' ''web''].
      c \<noteq> Running \<longrightarrow> CHR '','' \<notin> set (ToString c)"
    by simp
  have h2: "map_of (ToKeywords [Name ''foo'', Running, Label ''app'' ''web'']) ''field_selector''
       = Some ''metadata.name=foo,status.phase!=Failed,status.phase!=Succeeded''"
    by (simp add: ToKeywords_def)
  have h3: "map_of (ToKeywords [Name ''foo'', Running]) ''label_selector'' = None"
    by (simp add: ToKeywords_def)
  have "resplit ''field_selector'' ''metadata.name=foo,status.phase!=Failed,status.phase!=Succeeded''
       = fragments ''field_selector'' [Name ''foo'', Running, Label ''app'' ''web'']"
    using C7_round_trip [OF h1, of "''field_selector''"] unfolding h2 by simp
  moreover have "fragments ''label_selector'' [Name ''foo'', Running] = []"
    by (simp add: fragments_def)
  ultimately show ?thesis
    using h1 h2 h3 by (simp add: fragments_def)
qed

section \<open>Properties of the volume lookup\<close>

lemma count_named_none_aux:
  assumes "\<forall>key\<in>set keys. Option.bind (map_of volumes key) info_name \<noteq> Some volume_name"
  shows "foldl (\<lambda>(vol_id, count) key.
              if Option.bind (map_of volumes key) info_name = Some volume_name
              then (Some key, count + 1) else (vol_id, count))
           acc keys = acc"
  using assms by (induction keys arbitrary: acc) (auto simp: case_prod_unfold)

lemma count_named_none:
  assumes "\<forall>kv\<in>set volumes. info_name (snd kv) \<noteq> Some volume_name"
  shows "count_named volumes volume_name = (None, 0)"
proof -
  have "\<forall>key\<in>set (map fst volumes).
          Option.bind (map_of volumes key) info_name \<noteq> Some volume_name"
  proof
    fix key assume "key \<in> set (map fst volumes)"
    show "Option.bind (map_of volumes key) info_name \<noteq> Some volume_name"
    proof (cases "map_of volumes key")
      case None
      then show ?thesis by simp
    next
      case (Some vi)
      then have "(key, vi) \<in> set volumes" by (rule map_of_SomeD)
      with assms have "info_name vi \<noteq> Some volume_name" by auto
      with Some show ?thesis by simp
    qed
  qed
  then show ?thesis
    unfolding count_named_def by (rule count_named_none_aux)
qed

text \<open>
  Claim C9. When the lookup by id raises a \<open>RuntimeError\<close> and the lookup by name raises
  one too, \<open>GetVolume\<close> raises a \<open>RuntimeError\<close> with the message of the second; the
  message of the first plays no part. When the lookup by id returns a volume, or raises a
  \<open>RuntimeError\<close> and the lookup by name returns a volume, \<open>GetVolume\<close> returns that
  volume. In particular a string that is neither an id nor a name tag of a listed volume
  gives the not-found error of the lookup by name.
\<close>

theorem C9_GetVolume:
  "(GetVolumeById d v1 x r = Inl (RuntimeError m1)
      \<and> GetVolumeByName d v2 x r = Inl (RuntimeError m2)
      \<longrightarrow> GetVolume d v1 v2 x r = Inl (RuntimeError m2))
   \<and> (GetVolumeById d v1 x r = Inr vol \<longrightarrow> GetVolume d v1 v2 x r = Inr vol)
   \<and> (GetVolumeById d v1 x r = Inl (RuntimeError m1)
      \<and> GetVolumeByName d v2 x r = Inr vol
      \<longrightarrow> GetVolume d v1 v2 x r = Inr vol)
   \<and> (map_of v1 x = None \<and> (\<forall>kv\<in>set v2. info_name (snd kv) \<noteq> Some x)
      \<longrightarrow> GetVolume d v1 v2 x r =
            Inl (RuntimeError (''Volume '' @ x @ '' was not found in AWS account'')))"
proof (intro conjI impI)
  assume "GetVolumeById d v1 x r = Inl (RuntimeError m1)
      \<and> GetVolumeByName d v2 x r = Inl (RuntimeError m2)"
  then show "GetVolume d v1 v2 x r = Inl (RuntimeError m2)"
    by (simp add: GetVolume_def try_lookup_def)
next
  assume "GetVolumeById d v1 x r = Inr vol"
  then show "GetVolume d v1 v2 x r = Inr vol"
    by (simp add: GetVolume_def try_lookup_def)
next
  assume "GetVolumeById d v1 x r = Inl (RuntimeError m1)
      \<and> GetVolumeByName d v2 x r = Inr vol"
  then show "GetVolume d v1 v2 x r = Inr vol"
    by (simp add: GetVolume_def try_lookup_def)
next
  assume a: "map_of v1 x = None \<and> (\<forall>kv\<in>set v2. info_name (snd kv) \<noteq> Some x)"
  then have "count_named v2 x = (None, 0)"
    by (intro count_named_none) simp
  with a show "GetVolume d v1 v2 x r =
            Inl (RuntimeError (''Volume '' @ x @ '' was not found in AWS account''))"
    by (simp add: GetVolume_def try_lookup_def GetVolumeById_def GetVolumeByName_def)
qed

theorem C9_GetVolume_witness:
  "GetVolume ''us-east-2''
     [(''vol-1'', \<lparr>info_region = ''us-east-2'', zone = ''us-east-2b'',
                   info_name = Some ''data'', device = None\<rparr>)]
     [(''vol-1'', \<lparr>info_region = ''us-east-2'', zone = ''us-east-2b'',
                   info_name = Some ''data'', device = None\<rparr>)]
     ''lost'' None
   = Inl (RuntimeError ''Volume lost was not found in AWS account'')
   \<and> GetVolume ''us-east-2''
     [(''vol-1'', \<lparr>info_region = ''us-east-2'', zone = ''us-east-2b'',
                   info_name = Some ''data'', device = None\<rparr>)]
     [(''vol-1'', \<lparr>info_region = ''us-east-2'', zone = ''us-east-2b'',
                   info_name = Some ''data'', device = None\<rparr>)]
     ''data'' None
   = Inr \<lparr>region = ''us-east-2'', availability_zone = ''us-east-2b'', name = Some ''data'',
          volume_id = ''vol-1''\<rparr>"
  using C9_GetVolume [where d = "''us-east-2''"
      and ?v1.0 = "[(''vol-1'', \<lparr>info_region = ''us-east-2'', zone = ''us-east-2b'',
                   info_name = Some ''data'', device = None\<rparr>)]"
      and ?v2.0 = "[(''vol-1'', \<lparr>info_region = ''us-east-2'', zone = ''us-east-2b'',
                   info_name = Some ''data'', device = None\<rparr>)]"
      and x = "''lost''" and r = None]
    C9_GetVolume [where d = "''us-east-2''"
      and ?v1.0 = "[(''vol-1'', \<lparr>info_region = ''us-east-2'', zone = ''us-east-2b'',
                   info_name = Some ''data'', device = None\<rparr>)]"
      and ?v2.0 = "[(''vol-1'', \<lparr>info_region = ''us-east-2'', zone = ''us-east-2b'',
                   info_name = Some ''data'', device = None\<rparr>)]"
      and x = "''data''" and r = None
      and ?m1.0 = "''Volume data was not found in AWS account''"
      and vol = "\<lparr>region = ''us-east-2'', availability_zone = ''us-east-2b'',
          name = Some ''data'', volume_id = ''vol-1''\<rparr>"]
  by (simp add: GetVolumeById_def GetVolumeByName_def count_named_def truthy_def)

section \<open>Properties of the name check\<close>

lemma match_iff:
  "REGEX_TAG_VALUE_match s \<longleftrightarrow>
     (\<exists>n. 1 \<le> n \<and> n \<le> 255 \<and> n \<le> length s \<and> list_all dot (take n s) \<and> dollar (drop n s))"
  unfolding REGEX_TAG_VALUE_match_def list_ex_iff by auto



lemma match_trailing_newline:
  assumes "length b = 255" "CHR 0x0A \<notin> set b"
  shows "REGEX_TAG_VALUE_match (b @ [CHR 0x0A])"
proof -
  have "list_all dot (take 255 (b @ [CHR 0x0A]))" "dollar (drop 255 (b @ [CHR 0x0A]))"
    using assms by (auto simp: list_all_iff dot_def dollar_def)
  then show ?thesis
    unfolding match_iff using assms(1) by (intro exI [of _ 255]) simp
qed










end
